theory Spec2Isabelle
  imports Complex_Main
begin

section \<open>Python values, exceptions and the file system\<close>

text \<open>
  The session store (\<^verbatim>\<open>chat_history.py\<close>) keeps one JSON file per session. Everything it reads
  from a file is what \<^verbatim>\<open>json.loads\<close> produced, and everything it writes goes through
  \<^verbatim>\<open>json.dumps\<close>, so the Python values of the model are the JSON-native ones: \<^verbatim>\<open>None\<close>,
  booleans, integers, strings, lists and dictionaries with string keys (floating-point numbers are left
  out). A dictionary is an association list in insertion order; a key is looked up with \<open>map_of\<close>.
\<close>

datatype json =
    JNull
  | JBool bool
  | JInt int
  | JStr string
  | JList "json list"
  | JDict "(string \<times> json) list"

text \<open>The exceptions that the modelled code can meet. \<open>UpstreamError\<close> stands for whatever an
  external collaborator (embedding model, hybrid retriever library) raises.\<close>

datatype error =
    JSONDecodeError
  | FileNotFoundError
  | AttributeError
  | TypeError
  | KeyError
  | IndexError
  | ValueError
  | UnicodeDecodeError
  | UpstreamError string

definition bind_e :: "error + 'a \<Rightarrow> ('a \<Rightarrow> error + 'b) \<Rightarrow> error + 'b" where
  "bind_e r f = (case r of Inl e \<Rightarrow> Inl e | Inr v \<Rightarrow> f v)"

text \<open>
  Python refuses to convert between text and an integer of more than 4300 decimal digits (the
  default limit of the interpreter): \<^verbatim>\<open>json.dumps\<close> of a value that holds such an integer raises
  \<^verbatim>\<open>ValueError\<close>, and so does \<^verbatim>\<open>json.loads\<close> of a text that holds one.
\<close>

definition max_str_digits :: nat where
  "max_str_digits = 4300"

fun within_digit_limit :: "json \<Rightarrow> bool" where
  "within_digit_limit (JInt i) = (\<bar>i\<bar> < 10 ^ max_str_digits)"
| "within_digit_limit (JList xs) = list_all within_digit_limit xs"
| "within_digit_limit (JDict kvs) = list_all (\<lambda>kv. within_digit_limit (snd kv)) kvs"
| "within_digit_limit _ = True"

text \<open>
  The content of a file is one of three things: the JSON text of a value; text that is not valid
  JSON (an empty file included), on which \<^verbatim>\<open>json.loads\<close> raises \<^verbatim>\<open>JSONDecodeError\<close>; or bytes
  that are not text at all (not valid in the encoding the file is read with), on which reading
  the file raises \<^verbatim>\<open>UnicodeDecodeError\<close>. \<^verbatim>\<open>json.loads\<close> of the text that \<^verbatim>\<open>json.dumps\<close> wrote
  for a value gives the same value back. Values that \<^verbatim>\<open>json.dumps\<close> rejects for their type (a
  set, a date) are outside the type \<open>json\<close>; the digit limit is the failure of \<^verbatim>\<open>json.dumps\<close>
  inside it.
\<close>

datatype file_text = Encoded json | Malformed | NotText

definition json_loads :: "file_text \<Rightarrow> error + json" where
  "json_loads t =
     (case t of
        Encoded v \<Rightarrow> (if within_digit_limit v then Inr v else Inl ValueError)
      | Malformed \<Rightarrow> Inl JSONDecodeError
      | NotText \<Rightarrow> Inl UnicodeDecodeError)"

definition json_dumps :: "json \<Rightarrow> error + file_text" where
  "json_dumps v = (if within_digit_limit v then Inr (Encoded v) else Inl ValueError)"

text \<open>The file system is a map from paths to file texts. Directories are not modelled: a session id
  is assumed safe as a storage key, so that opening its file for writing succeeds.\<close>

type_synonym filesystem = "string \<rightharpoonup> file_text"

definition path_exists :: "filesystem \<Rightarrow> string \<Rightarrow> bool" where
  "path_exists fs p = (fs p \<noteq> None)"

text \<open>Opening an absent file for reading raises \<^verbatim>\<open>FileNotFoundError\<close>; reading, in text mode,
  a file whose bytes are not text raises \<^verbatim>\<open>UnicodeDecodeError\<close>.\<close>

definition read_file :: "filesystem \<Rightarrow> string \<Rightarrow> error + file_text" where
  "read_file fs p =
     (case fs p of
        None \<Rightarrow> Inl FileNotFoundError
      | Some NotText \<Rightarrow> Inl UnicodeDecodeError
      | Some t \<Rightarrow> Inr t)"

text \<open>\<^verbatim>\<open>open(path, 'w')\<close> truncates the file: it is empty until the write stores the text.\<close>

definition open_w :: "filesystem \<Rightarrow> string \<Rightarrow> filesystem" where
  "open_w fs p = fs(p \<mapsto> Malformed)"

definition write_file :: "filesystem \<Rightarrow> string \<Rightarrow> file_text \<Rightarrow> filesystem" where
  "write_file fs p t = fs(p \<mapsto> t)"

definition os_remove :: "filesystem \<Rightarrow> string \<Rightarrow> filesystem" where
  "os_remove fs p = fs(p := None)"

text \<open>\<^verbatim>\<open>os.path.join\<close> of two components (POSIX).\<close>

definition os_path_join :: "string \<Rightarrow> string \<Rightarrow> string" where
  "os_path_join a b =
     (if b \<noteq> [] \<and> hd b = CHR ''/'' then b
      else if a = [] \<or> last a = CHR ''/'' then a @ b
      else a @ ''/'' @ b)"

subsection \<open>Python operations on values\<close>

text \<open>Truth value of a Python object (\<^verbatim>\<open>x or y\<close>, \<^verbatim>\<open>if x\<close>, \<^verbatim>\<open>any\<close>).\<close>

fun truthy :: "json \<Rightarrow> bool" where
  "truthy JNull = False"
| "truthy (JBool b) = b"
| "truthy (JInt i) = (i \<noteq> 0)"
| "truthy (JStr s) = (s \<noteq> [])"
| "truthy (JList xs) = (xs \<noteq> [])"
| "truthy (JDict kvs) = (kvs \<noteq> [])"

text \<open>\<^verbatim>\<open>d or {}\<close> for an optional dictionary argument.\<close>

definition or_empty_dict :: "(string \<times> json) list option \<Rightarrow> json" where
  "or_empty_dict d = (case d of None \<Rightarrow> JDict [] | Some kvs \<Rightarrow> (if kvs \<noteq> [] then JDict kvs else JDict []))"

text \<open>\<^verbatim>\<open>data.get(key, default)\<close>: only a dictionary has the method.\<close>

fun py_get :: "json \<Rightarrow> string \<Rightarrow> json \<Rightarrow> error + json" where
  "py_get (JDict kvs) k d = Inr (case map_of kvs k of None \<Rightarrow> d | Some v \<Rightarrow> v)"
| "py_get _ k d = Inl AttributeError"

text \<open>\<^verbatim>\<open>m[key]\<close> with a string key.\<close>

fun py_getitem :: "json \<Rightarrow> string \<Rightarrow> error + json" where
  "py_getitem (JDict kvs) k = (case map_of kvs k of None \<Rightarrow> Inl KeyError | Some v \<Rightarrow> Inr v)"
| "py_getitem _ k = Inl TypeError"

text \<open>\<^verbatim>\<open>messages.append(message)\<close>: only a list has the method.\<close>

fun py_append :: "json \<Rightarrow> json \<Rightarrow> error + json" where
  "py_append (JList xs) x = Inr (JList (xs @ [x]))"
| "py_append _ x = Inl AttributeError"

text \<open>Iteration: a list yields its elements, a dictionary its keys, a string its characters.\<close>

fun py_iter :: "json \<Rightarrow> error + json list" where
  "py_iter (JList xs) = Inr xs"
| "py_iter (JDict kvs) = Inr (map (\<lambda>kv. JStr (fst kv)) kvs)"
| "py_iter (JStr s) = Inr (map (\<lambda>c. JStr [c]) s)"
| "py_iter _ = Inl TypeError"

fun py_len :: "json \<Rightarrow> error + nat" where
  "py_len (JList xs) = Inr (length xs)"
| "py_len (JDict kvs) = Inr (length kvs)"
| "py_len (JStr s) = Inr (length s)"
| "py_len _ = Inl TypeError"

text \<open>\<^verbatim>\<open>messages[-1]\<close>.\<close>

fun py_last :: "json \<Rightarrow> error + json" where
  "py_last (JList xs) = (if xs = [] then Inl IndexError else Inr (last xs))"
| "py_last (JStr s) = (if s = [] then Inl IndexError else Inr (JStr [last s]))"
| "py_last (JDict kvs) = Inl KeyError"
| "py_last _ = Inl TypeError"

section \<open>The session store: \<^verbatim>\<open>ChatHistory\<close>\<close>

record chat_history =
  storage_dir :: string

definition get_session_path :: "chat_history \<Rightarrow> string \<Rightarrow> string" where
  "get_session_path self session_id = os_path_join (storage_dir self) (session_id @ ''.json'')"

text \<open>
  \<^verbatim>\<open>get_messages\<close>: an absent file gives the empty list; otherwise the file is read and decoded,
  and \<^verbatim>\<open>JSONDecodeError\<close> and \<^verbatim>\<open>FileNotFoundError\<close> are caught and give the empty list too.
  Any other exception (the bytes are not text, an integer is over the digit limit, the decoded
  value is not a dictionary) propagates.
\<close>

definition get_messages :: "chat_history \<Rightarrow> filesystem \<Rightarrow> string \<Rightarrow> error + json" where
  "get_messages self fs session_id =
     (let file_path = get_session_path self session_id in
      if \<not> path_exists fs file_path then Inr (JList [])
      else
        (case bind_e (read_file fs file_path) (\<lambda>content.
              bind_e (json_loads content) (\<lambda>data.
              py_get data ''messages'' (JList []))) of
           Inl JSONDecodeError \<Rightarrow> Inr (JList [])
         | Inl FileNotFoundError \<Rightarrow> Inr (JList [])
         | Inl e \<Rightarrow> Inl e
         | Inr messages \<Rightarrow> Inr messages))"

text \<open>
  The arguments of one \<^verbatim>\<open>add_message\<close> call. \<open>uuid\<close> and \<open>now\<close> are the results of
  \<^verbatim>\<open>str(uuid.uuid4())\<close> and \<^verbatim>\<open>datetime.utcnow().isoformat()\<close> at the call: they come from the
  environment, not from the caller.
\<close>

record call =
  role :: string
  content :: string
  document_context :: "(string \<times> json) list option"
  metadata :: "(string \<times> json) list option"
  uuid :: string
  now :: string

definition new_message :: "call \<Rightarrow> json" where
  "new_message c =
     JDict [(''id'', JStr (uuid c)),
            (''timestamp'', JStr (now c)),
            (''role'', JStr (role c)),
            (''content'', JStr (content c)),
            (''document_context'', or_empty_dict (document_context c)),
            (''metadata'', or_empty_dict (metadata c))]"

text \<open>
  \<^verbatim>\<open>add_message\<close>: build the message, load the whole history, append, then open the file for
  writing and write the whole history. \<^verbatim>\<open>json.dumps\<close> is evaluated inside the \<^verbatim>\<open>with open\<close> block:
  when it raises, the file has already been truncated. The result is the returned message (or the
  exception) and the file system afterwards.
\<close>

definition add_message :: "chat_history \<Rightarrow> filesystem \<Rightarrow> string \<Rightarrow> call \<Rightarrow> (error + json) \<times> filesystem" where
  "add_message self fs session_id c =
     (let message = new_message c in
      case bind_e (get_messages self fs session_id) (\<lambda>messages. py_append messages message) of
        Inl e \<Rightarrow> (Inl e, fs)
      | Inr messages \<Rightarrow>
          (let file_path = get_session_path self session_id;
               fs1 = open_w fs file_path
           in case json_dumps (JDict [(''messages'', messages)]) of
                Inl e \<Rightarrow> (Inl e, fs1)
              | Inr text \<Rightarrow> (Inr message, write_file fs1 file_path text)))"

text \<open>A sequence of serialized \<^verbatim>\<open>add_message\<close> calls on one session: the returned messages in
  call order, stopping at the first exception.\<close>

fun add_messages :: "chat_history \<Rightarrow> filesystem \<Rightarrow> string \<Rightarrow> call list \<Rightarrow> (error + json list) \<times> filesystem" where
  "add_messages self fs session_id [] = (Inr [], fs)"
| "add_messages self fs session_id (c # cs) =
     (case add_message self fs session_id c of
        (Inl e, fs') \<Rightarrow> (Inl e, fs')
      | (Inr m, fs') \<Rightarrow>
          (case add_messages self fs' session_id cs of
             (Inl e, fs'') \<Rightarrow> (Inl e, fs'')
           | (Inr ms, fs'') \<Rightarrow> (Inr (m # ms), fs'')))"

definition clear_session :: "chat_history \<Rightarrow> filesystem \<Rightarrow> string \<Rightarrow> bool \<times> filesystem" where
  "clear_session self fs session_id =
     (let file_path = get_session_path self session_id in
      if path_exists fs file_path then (True, os_remove fs file_path)
      else (False, fs))"

record stats =
  total_messages :: nat
  user_messages :: nat
  assistant_messages :: nat
  has_document_context :: bool
  last_message_at :: json

text \<open>\<^verbatim>\<open>[m for m in messages if m["role"] == r]\<close>: the subscript raises on the first element that
  is not a dictionary with the key.\<close>

fun filter_role :: "string \<Rightarrow> json list \<Rightarrow> error + json list" where
  "filter_role r [] = Inr []"
| "filter_role r (m # ms) =
     bind_e (py_getitem m ''role'') (\<lambda>v.
     bind_e (filter_role r ms) (\<lambda>rest.
     Inr (if v = JStr r then m # rest else rest)))"

text \<open>\<^verbatim>\<open>any(m.get("document_context") for m in messages)\<close>: stops at the first true element.\<close>

fun any_document_context :: "json list \<Rightarrow> error + bool" where
  "any_document_context [] = Inr False"
| "any_document_context (m # ms) =
     bind_e (py_get m ''document_context'' JNull) (\<lambda>v.
     if truthy v then Inr True else any_document_context ms)"

definition get_session_stats :: "chat_history \<Rightarrow> filesystem \<Rightarrow> string \<Rightarrow> error + stats" where
  "get_session_stats self fs session_id =
     bind_e (get_messages self fs session_id) (\<lambda>messages.
     bind_e (py_iter messages) (\<lambda>items.
     bind_e (filter_role ''user'' items) (\<lambda>user_msgs.
     bind_e (filter_role ''assistant'' items) (\<lambda>assistant_msgs.
     bind_e (py_len messages) (\<lambda>total.
     bind_e (any_document_context items) (\<lambda>has_ctx.
     bind_e (if truthy messages
             then bind_e (py_last messages) (\<lambda>m. py_getitem m ''timestamp'')
             else Inr JNull) (\<lambda>last_at.
     Inr \<lparr>total_messages = total,
          user_messages = length user_msgs,
          assistant_messages = length assistant_msgs,
          has_document_context = has_ctx,
          last_message_at = last_at\<rparr>)))))))"

text \<open>
  The statistics as the specification words them, over a list of messages: the number of messages,
  the numbers of messages whose role is \<^verbatim>\<open>user\<close> and \<^verbatim>\<open>assistant\<close>, whether some message has a
  document context, and the timestamp of the last message, or \<^verbatim>\<open>None\<close> when there is no message.
  \<open>msg_field\<close> reads a field of a message, \<^verbatim>\<open>None\<close> when it is missing.
\<close>

definition msg_field :: "json \<Rightarrow> string \<Rightarrow> json" where
  "msg_field m k = (case py_getitem m k of Inr v \<Rightarrow> v | Inl e \<Rightarrow> JNull)"

definition stats_view :: "json list \<Rightarrow> stats" where
  "stats_view ms =
     \<lparr>total_messages = length ms,
      user_messages = length (filter (\<lambda>m. msg_field m ''role'' = JStr ''user'') ms),
      assistant_messages = length (filter (\<lambda>m. msg_field m ''role'' = JStr ''assistant'') ms),
      has_document_context = list_ex (\<lambda>m. truthy (msg_field m ''document_context'')) ms,
      last_message_at = (if ms = [] then JNull else msg_field (last ms) ''timestamp'')\<rparr>"

section \<open>The retriever: \<^verbatim>\<open>DocumentRetriever\<close> and its \<^verbatim>\<open>SimpleRetriever\<close>\<close>

text \<open>
  Embeddings are numeric arrays: a vector is a list of numbers, a matrix a list of rows.
  Floating-point numbers are idealised as real numbers, so the arithmetic below is exact.
  \<^verbatim>\<open>self.embedding_model.encode\<close> and \<^verbatim>\<open>self.hybrid_retriever.hybrid_retrieve\<close> belong to
  external libraries; the functions that call them take them as parameters.
\<close>

type_synonym vec = "real list"
type_synonym matrix = "real list list"

subsection \<open>String cleaning\<close>

text \<open>\<^verbatim>\<open>str.strip()\<close> removes leading and trailing whitespace. A character stands for a code
  point below 256; the whitespace among them is the ASCII whitespace, the separators
  \<^verbatim>\<open>0x1C\<close> to \<^verbatim>\<open>0x1F\<close>, the next-line character \<^verbatim>\<open>0x85\<close> and the no-break space \<^verbatim>\<open>0xA0\<close>.\<close>

definition is_space :: "char \<Rightarrow> bool" where
  "is_space c = (c \<in> set [CHR '' '', CHR 0x09, CHR 0x0A, CHR 0x0B, CHR 0x0C, CHR 0x0D,
                            CHR 0x1C, CHR 0x1D, CHR 0x1E, CHR 0x1F, CHR 0x85, CHR 0xA0])"

definition strip :: "string \<Rightarrow> string" where
  "strip s = rev (dropWhile is_space (rev (dropWhile is_space s)))"

subsection \<open>Array operations\<close>

definition dot :: "vec \<Rightarrow> vec \<Rightarrow> real" where
  "dot a b = sum_list (map2 (*) a b)"

text \<open>\<^verbatim>\<open>np.dot(E, q)\<close> of an N\<times>D matrix and a vector: the shapes must agree.\<close>

definition np_dot :: "matrix \<Rightarrow> vec \<Rightarrow> error + vec" where
  "np_dot E q =
     (if list_all (\<lambda>row. length row = length q) E then Inr (map (\<lambda>row. dot row q) E)
      else Inl ValueError)"

text \<open>\<^verbatim>\<open>np.linalg.norm(q)\<close> and \<^verbatim>\<open>np.linalg.norm(E, axis=1)\<close>.\<close>

definition norm_vec :: "vec \<Rightarrow> real" where
  "norm_vec v = sqrt (sum_list (map (\<lambda>x. x * x) v))"

definition norm_rows :: "matrix \<Rightarrow> vec" where
  "norm_rows E = map norm_vec E"

text \<open>The constant \<^verbatim>\<open>1e-9\<close>.\<close>

definition eps :: real where
  "eps = 1 / 1000000000"

text \<open>\<^verbatim>\<open>np.dot(E, q) / (np.linalg.norm(E, axis=1) * np.linalg.norm(q) + 1e-9)\<close>, elementwise.\<close>

definition cosine_scores :: "matrix \<Rightarrow> vec \<Rightarrow> error + vec" where
  "cosine_scores E q =
     bind_e (np_dot E q) (\<lambda>dots.
     Inr (map2 (/) dots (map (\<lambda>n. n * norm_vec q + eps) (norm_rows E))))"

text \<open>
  \<^verbatim>\<open>np.argsort(scores)\<close> belongs to numpy. With the default sort kind it promises the indices of
  \<open>scores\<close>, each once, in ascending order of score; the order among equal scores is not part of
  the promise. The functions that call it take it as the parameter \<open>np_argsort\<close>, and
  \<open>is_argsort\<close> is what it promises of its result.
\<close>

definition is_argsort :: "vec \<Rightarrow> nat list \<Rightarrow> bool" where
  "is_argsort scores order =
     (distinct order \<and> set order = {0..<length scores} \<and> sorted (map (\<lambda>i. scores ! i) order))"

text \<open>The slice \<^verbatim>\<open>xs[s:]\<close>: a negative start counts from the end, and is clipped at the front.\<close>

definition py_slice_from :: "'a list \<Rightarrow> int \<Rightarrow> 'a list" where
  "py_slice_from xs s =
     (if s < 0 then drop (nat (int (length xs) + s)) xs else drop (nat s) xs)"

text \<open>\<^verbatim>\<open>np.argsort(scores)[-k:][::-1]\<close>.\<close>

definition top_indices :: "(vec \<Rightarrow> nat list) \<Rightarrow> vec \<Rightarrow> int \<Rightarrow> nat list" where
  "top_indices np_argsort scores k = rev (py_slice_from (np_argsort scores) (- k))"

text \<open>\<^verbatim>\<open>xs[i]\<close> for an index that is not negative.\<close>

definition list_index :: "'a list \<Rightarrow> nat \<Rightarrow> error + 'a" where
  "list_index xs i = (if i < length xs then Inr (xs ! i) else Inl IndexError)"

text \<open>A list comprehension whose element expression may raise.\<close>

fun map_e :: "('a \<Rightarrow> error + 'b) \<Rightarrow> 'a list \<Rightarrow> error + 'b list" where
  "map_e f [] = Inr []"
| "map_e f (x # xs) = bind_e (f x) (\<lambda>y. bind_e (map_e f xs) (\<lambda>ys. Inr (y # ys)))"

subsection \<open>\<^verbatim>\<open>SimpleRetriever.retrieve\<close>\<close>

text \<open>The method returns the documents and the scores of the top indices; any exception in its
  body is caught and gives two empty lists.\<close>

definition simple_retrieve ::
  "(vec \<Rightarrow> nat list) \<Rightarrow> string list \<Rightarrow> matrix \<Rightarrow> vec \<Rightarrow> int \<Rightarrow> string list \<times> real list" where
  "simple_retrieve np_argsort documents embeddings query_embedding k =
     (case bind_e (cosine_scores embeddings query_embedding) (\<lambda>scores.
           let top = top_indices np_argsort scores k in
           bind_e (map_e (list_index documents) top) (\<lambda>results.
           Inr (results, map (\<lambda>i. scores ! i) top))) of
        Inl e \<Rightarrow> ([], [])
      | Inr r \<Rightarrow> r)"

subsection \<open>\<^verbatim>\<open>DocumentRetriever\<close>\<close>

record retriever =
  documents :: "string list"
  document_embeddings :: "matrix option"

text \<open>The state after \<^verbatim>\<open>__init__\<close>.\<close>

definition init_retriever :: retriever where
  "init_retriever = \<lparr>documents = [], document_embeddings = None\<rparr>"

text \<open>
  \<^verbatim>\<open>add_documents\<close>: an empty argument returns at once; otherwise the documents are replaced by
  the stripped, non-empty chunks; if none is left the method returns; otherwise the embedding model
  is called and its exception, if any, is raised again. The result is the outcome and the retriever
  afterwards.
\<close>

definition add_documents ::
  "(string list \<Rightarrow> error + matrix) \<Rightarrow> retriever \<Rightarrow> string list \<Rightarrow> (error + unit) \<times> retriever" where
  "add_documents encode self chunks =
     (if chunks = [] then (Inr (), self)
      else
        (let self1 = self\<lparr>documents := map strip (filter (\<lambda>chunk. strip chunk \<noteq> []) chunks)\<rparr> in
         if documents self1 = [] then (Inr (), self1)
         else
           (case encode (documents self1) of
              Inr embeddings \<Rightarrow> (Inr (), self1\<lparr>document_embeddings := Some embeddings\<rparr>)
            | Inl e \<Rightarrow> (Inl e, self1))))"

text \<open>
  The ingest of the \<^verbatim>\<open>/upload\<close> handler (\<^verbatim>\<open>fastAPI.py\<close>, after chunking and filtering): the
  chunks are embedded, paired with their embeddings by \<^verbatim>\<open>zip\<close> and appended to the table of
  stored chunks; then the retriever's documents become the texts of the whole table and its
  embeddings are computed anew from them. Any exception ends the handler.
\<close>

definition upload_ingest ::
  "(string list \<Rightarrow> error + matrix) \<Rightarrow> (string \<times> vec) list \<Rightarrow> retriever \<Rightarrow> string list \<Rightarrow>
     (error + unit) \<times> (string \<times> vec) list \<times> retriever" where
  "upload_ingest encode db self chunks =
     (case encode chunks of
        Inl e \<Rightarrow> (Inl e, db, self)
      | Inr embeddings \<Rightarrow>
          (let db1 = db @ zip chunks embeddings;
               self1 = self\<lparr>documents := map fst db1\<rparr>
           in case encode (documents self1) of
                Inl e \<Rightarrow> (Inl e, db1, self1)
              | Inr all_embeddings \<Rightarrow>
                  (Inr (), db1, self1\<lparr>document_embeddings := Some all_embeddings\<rparr>)))"

text \<open>The result of the external \<^verbatim>\<open>hybrid_retrieve\<close>: a dictionary that may have the keys
  \<^verbatim>\<open>documents\<close> and \<^verbatim>\<open>scores\<close>.\<close>

record hybrid_result =
  result_documents :: "string list option"
  result_scores :: "real list option"

record scored_chunk =
  chunk_content :: string
  score :: real
  semantic_score :: real
  bm25_score :: real

definition format_results :: "hybrid_result \<Rightarrow> scored_chunk list" where
  "format_results results =
     (case (result_documents results, result_scores results) of
        (Some docs, Some scores) \<Rightarrow>
          map (\<lambda>(doc, sc). \<lparr>chunk_content = doc, score = sc, semantic_score = sc, bm25_score = sc\<rparr>)
            (zip docs scores)
      | _ \<Rightarrow> [])"

text \<open>
  \<^verbatim>\<open>DocumentRetriever.retrieve\<close>: with no documents or no embeddings the result is the empty
  list; otherwise the query is embedded, a \<^verbatim>\<open>SimpleRetriever\<close> is built and handed to the hybrid
  retriever, and the result is formatted. Every exception of that part is caught and gives the empty
  list, so the method has no exceptional outcome. The arguments \<open>top_k\<close>, \<open>semantic_weight\<close> and
  \<open>bm25_weight\<close> are not used by the body.
\<close>

definition retrieve ::
  "(vec \<Rightarrow> nat list) \<Rightarrow>
   (string \<Rightarrow> error + vec) \<Rightarrow>
   (string list \<Rightarrow> (vec \<Rightarrow> int \<Rightarrow> string list \<times> real list) \<Rightarrow> string \<Rightarrow> error + hybrid_result) \<Rightarrow>
   retriever \<Rightarrow> string \<Rightarrow> int \<Rightarrow> real \<Rightarrow> real \<Rightarrow> scored_chunk list" where
  "retrieve np_argsort encode_query hybrid_retrieve self query top_k semantic_weight bm25_weight =
     (if documents self = [] \<or> document_embeddings self = None then []
      else
        (case bind_e (encode_query query) (\<lambda>query_embedding.
              bind_e (hybrid_retrieve (documents self)
                        (simple_retrieve np_argsort (documents self) (the (document_embeddings self)))
                        query) (\<lambda>results.
              Inr (format_results results))) of
           Inl e \<Rightarrow> []
         | Inr formatted_results \<Rightarrow> formatted_results))"

subsection \<open>Example collaborators\<close>

text \<open>Stand-ins for the external embedding model and hybrid retriever, used in the examples
  below: a model that returns a fixed matrix whatever it is given, and collaborators that fail.\<close>

definition encode_fixed :: "matrix \<Rightarrow> string list \<Rightarrow> error + matrix" where
  "encode_fixed E docs = Inr E"

definition encode_failing :: "string list \<Rightarrow> error + matrix" where
  "encode_failing docs = Inl (UpstreamError ''encode failed'')"

definition encode_query_failing :: "string \<Rightarrow> error + vec" where
  "encode_query_failing query = Inl (UpstreamError ''encode failed'')"

definition hybrid_failing ::
  "string list \<Rightarrow> (vec \<Rightarrow> int \<Rightarrow> string list \<times> real list) \<Rightarrow> string \<Rightarrow> error + hybrid_result" where
  "hybrid_failing chunks retriever question = Inl (UpstreamError ''retrieval failed'')"

text \<open>Two sorts that keep the promise of \<^verbatim>\<open>np.argsort\<close>: one leaves equal scores in ascending
  order of index, the other in descending order.\<close>

definition stable_argsort :: "vec \<Rightarrow> nat list" where
  "stable_argsort scores = sort_key (\<lambda>i. scores ! i) [0..<length scores]"

definition reversed_argsort :: "vec \<Rightarrow> nat list" where
  "reversed_argsort scores = sort_key (\<lambda>i. scores ! i) (rev [0..<length scores])"

text \<open>The store that \<^verbatim>\<open>ChatHistory()\<close> creates by default.\<close>

definition default_history :: chat_history where
  "default_history = \<lparr>storage_dir = ''./chat_history''\<rparr>"

text \<open>The two calls of the concrete scenario, \<^verbatim>\<open>add_message("s1", "user", "hello")\<close> and
  \<^verbatim>\<open>add_message("s1", "assistant", "hi there")\<close>, with the identifier and the timestamp that the
  environment supplies at the call.\<close>

definition user_hello :: "string \<Rightarrow> string \<Rightarrow> call" where
  "user_hello u t =
     \<lparr>role = ''user'', content = ''hello'', document_context = None, metadata = None, uuid = u, now = t\<rparr>"

definition assistant_hi_there :: "string \<Rightarrow> string \<Rightarrow> call" where
  "assistant_hi_there u t =
     \<lparr>role = ''assistant'', content = ''hi there'', document_context = None, metadata = None,
      uuid = u, now = t\<rparr>"

text \<open>A call whose metadata holds the smallest integer over the digit limit, of 4301 digits.\<close>

definition count_call :: "string \<Rightarrow> string \<Rightarrow> call" where
  "count_call u t =
     \<lparr>role = ''user'', content = ''count'', document_context = None,
      metadata = Some [(''n'', JInt (10 ^ max_str_digits))], uuid = u, now = t\<rparr>"

section \<open>Properties of the session store\<close>

subsection \<open>Reading and appending\<close>

lemma get_messages_absent:
  "fs (get_session_path self sid) = None \<Longrightarrow> get_messages self fs sid = Inr (JList [])"
  by (simp add: get_messages_def path_exists_def)

lemma get_messages_malformed:
  "fs (get_session_path self sid) = Some Malformed \<Longrightarrow> get_messages self fs sid = Inr (JList [])"
  by (simp add: get_messages_def path_exists_def read_file_def json_loads_def bind_e_def)

lemma get_messages_not_text:
  "fs (get_session_path self sid) = Some NotText \<Longrightarrow> get_messages self fs sid = Inl UnicodeDecodeError"
  by (simp add: get_messages_def path_exists_def read_file_def bind_e_def)

lemma get_messages_written:
  "within_digit_limit ms \<Longrightarrow>
   get_messages self (fs(get_session_path self sid \<mapsto> Encoded (JDict [(''messages'', ms)]))) sid = Inr ms"
  by (simp add: get_messages_def path_exists_def read_file_def json_loads_def bind_e_def)

lemma within_digit_limit_map_of:
  "list_all (\<lambda>kv. within_digit_limit (snd kv)) kvs \<Longrightarrow> map_of kvs k = Some v \<Longrightarrow> within_digit_limit v"
  by (induction kvs) (auto split: if_splits)

lemma get_messages_within:
  assumes "get_messages self fs sid = Inr v"
  shows "within_digit_limit v"
proof (cases "fs (get_session_path self sid)")
  case None
  with assms show ?thesis by (auto simp: get_messages_absent)
next
  case (Some t)
  show ?thesis
  proof (cases t)
    case (Encoded d)
    show ?thesis
    proof (cases "within_digit_limit d")
      case True
      with assms Some Encoded show ?thesis
        by (cases d)
          (auto simp: get_messages_def path_exists_def read_file_def json_loads_def bind_e_def
            dest: within_digit_limit_map_of split: option.splits)
    next
      case False
      with assms Some Encoded show ?thesis
        by (simp add: get_messages_def path_exists_def read_file_def json_loads_def bind_e_def)
    qed
  next
    case Malformed
    with assms Some show ?thesis by (auto simp: get_messages_malformed)
  next
    case NotText
    with assms Some show ?thesis by (simp add: get_messages_not_text)
  qed
qed

lemma add_message_list:
  assumes "get_messages self fs sid = Inr (JList old)" and "within_digit_limit (new_message c)"
  shows "add_message self fs sid c =
           (Inr (new_message c),
            fs(get_session_path self sid \<mapsto> Encoded (JDict [(''messages'', JList (old @ [new_message c]))])))"
proof -
  from get_messages_within [OF assms(1)] have "list_all within_digit_limit old" by simp
  with assms show ?thesis
    by (simp add: add_message_def bind_e_def open_w_def write_file_def json_dumps_def Let_def)
qed

lemma add_message_Inr:
  assumes "add_message self fs sid c = (Inr m, fs')"
  shows "\<exists>old. get_messages self fs sid = Inr (JList old) \<and> m = new_message c \<and>
           within_digit_limit (JList (old @ [m])) \<and>
           fs' = fs(get_session_path self sid \<mapsto> Encoded (JDict [(''messages'', JList (old @ [m]))]))"
proof (cases "get_messages self fs sid")
  case (Inl e)
  with assms show ?thesis by (simp add: add_message_def bind_e_def)
next
  case (Inr v)
  with assms show ?thesis
    by (cases v)
      (auto simp: add_message_def bind_e_def open_w_def write_file_def json_dumps_def Let_def
        split: if_splits)
qed

lemma add_message_rejected:
  assumes "get_messages self fs sid = Inr (JList old)" and "\<not> within_digit_limit (new_message c)"
  shows "add_message self fs sid c = (Inl ValueError, fs(get_session_path self sid \<mapsto> Malformed))"
  using assms
  by (simp add: add_message_def bind_e_def open_w_def json_dumps_def Let_def)

lemma add_messages_list:
  "get_messages self fs sid = Inr (JList old) \<Longrightarrow>
   list_all (\<lambda>c. within_digit_limit (new_message c)) cs \<Longrightarrow>
     fst (add_messages self fs sid cs) = Inr (map new_message cs) \<and>
     get_messages self (snd (add_messages self fs sid cs)) sid = Inr (JList (old @ map new_message cs))"
proof (induction cs arbitrary: fs old)
  case Nil
  then show ?case by simp
next
  case (Cons c cs)
  define fs1 where
    "fs1 = fs(get_session_path self sid \<mapsto> Encoded (JDict [(''messages'', JList (old @ [new_message c]))]))"
  from Cons.prems have c: "within_digit_limit (new_message c)"
    and cs: "list_all (\<lambda>c. within_digit_limit (new_message c)) cs" by simp_all
  have step: "add_message self fs sid c = (Inr (new_message c), fs1)"
    unfolding fs1_def by (rule add_message_list [OF Cons.prems(1) c])
  from get_messages_within [OF Cons.prems(1)] c
  have "within_digit_limit (JList (old @ [new_message c]))" by simp
  then have "get_messages self fs1 sid = Inr (JList (old @ [new_message c]))"
    unfolding fs1_def by (rule get_messages_written)
  from Cons.IH [OF this cs]
  have ih1: "fst (add_messages self fs1 sid cs) = Inr (map new_message cs)"
    and ih2: "get_messages self (snd (add_messages self fs1 sid cs)) sid =
                Inr (JList (old @ new_message c # map new_message cs))"
    by simp_all
  obtain r fs2 where run: "add_messages self fs1 sid cs = (r, fs2)"
    by (cases "add_messages self fs1 sid cs")
  from ih1 ih2 run have "r = Inr (map new_message cs)"
    and "get_messages self fs2 sid = Inr (JList (old @ new_message c # map new_message cs))"
    by simp_all
  with step run show ?case by simp
qed

lemma add_messages_Inr:
  "fst (add_messages self fs sid cs) = Inr ms \<Longrightarrow>
     list_all (\<lambda>c. within_digit_limit (new_message c)) cs"
proof (induction cs arbitrary: fs ms)
  case Nil
  then show ?case by simp
next
  case (Cons c cs)
  obtain r fs1 where step: "add_message self fs sid c = (r, fs1)"
    by (cases "add_message self fs sid c")
  obtain r' fs2 where run: "add_messages self fs1 sid cs = (r', fs2)"
    by (cases "add_messages self fs1 sid cs")
  from Cons.prems step run obtain m ms' where r: "r = Inr m" and r': "r' = Inr ms'"
    by (auto split: sum.splits)
  from add_message_Inr [OF step [unfolded r]]
  have "within_digit_limit (new_message c)" by auto
  moreover from run r' have "fst (add_messages self fs1 sid cs) = Inr ms'" by simp
  then have "list_all (\<lambda>c. within_digit_limit (new_message c)) cs" by (rule Cons.IH)
  ultimately show ?case by simp
qed

lemma count_call_rejected: "\<not> within_digit_limit (new_message (count_call u t))"
  by (simp add: new_message_def count_call_def or_empty_dict_def)

lemma hello_within: "within_digit_limit (new_message (user_hello u t))"
  by (simp add: new_message_def user_hello_def or_empty_dict_def)

lemma hi_there_within: "within_digit_limit (new_message (assistant_hi_there u t))"
  by (simp add: new_message_def assistant_hi_there_def or_empty_dict_def)

subsection \<open>Statistics\<close>

lemma filter_role_Inr:
  "filter_role r ms = Inr xs \<Longrightarrow> xs = filter (\<lambda>m. msg_field m ''role'' = JStr r) ms"
proof (induction ms arbitrary: xs)
  case Nil
  then show ?case by simp
next
  case (Cons m ms)
  from Cons.prems obtain v rest where v: "py_getitem m ''role'' = Inr v"
    and rest: "filter_role r ms = Inr rest"
    and xs: "xs = (if v = JStr r then m # rest else rest)"
    by (auto simp: bind_e_def split: sum.splits)
  from Cons.IH [OF rest] v xs show ?case
    by (simp add: msg_field_def)
qed

lemma any_document_context_Inr:
  "any_document_context ms = Inr b \<Longrightarrow> b = list_ex (\<lambda>m. truthy (msg_field m ''document_context'')) ms"
proof (induction ms)
  case Nil
  then show ?case by simp
next
  case (Cons m ms)
  show ?case
  proof (cases m)
    case (JDict kvs)
    with Cons show ?thesis
      by (auto simp: bind_e_def msg_field_def split: option.splits if_splits)
  qed (use Cons.prems in \<open>simp_all add: bind_e_def\<close>)
qed

lemma disjoint_filters_length:
  "(\<And>x. \<not> (P x \<and> Q x)) \<Longrightarrow> length (filter P xs) + length (filter Q xs) \<le> length xs"
  by (induction xs) auto

lemma iter_len:
  "py_iter v = Inr items \<Longrightarrow> py_len v = Inr n \<Longrightarrow> n = length items"
  by (cases v) auto

lemma bind_e_InrE:
  assumes "bind_e r f = Inr y"
  obtains v where "r = Inr v" and "f v = Inr y"
  using assms by (cases r) (simp_all add: bind_e_def)

lemma get_session_stats_Inr:
  assumes "get_session_stats self fs sid = Inr st"
  obtains messages items us as total b la where
    "get_messages self fs sid = Inr messages" "py_iter messages = Inr items"
    "filter_role ''user'' items = Inr us" "filter_role ''assistant'' items = Inr as"
    "py_len messages = Inr total"
    "any_document_context items = Inr b"
    "(if truthy messages then bind_e (py_last messages) (\<lambda>m. py_getitem m ''timestamp'') else Inr JNull) = Inr la"
    "st = \<lparr>total_messages = total, user_messages = length us, assistant_messages = length as,
           has_document_context = b, last_message_at = la\<rparr>"
proof -
  from assms obtain messages where 1: "get_messages self fs sid = Inr messages"
    and r1: "bind_e (py_iter messages) (\<lambda>items.
     bind_e (filter_role ''user'' items) (\<lambda>user_msgs.
     bind_e (filter_role ''assistant'' items) (\<lambda>assistant_msgs.
     bind_e (py_len messages) (\<lambda>total.
     bind_e (any_document_context items) (\<lambda>has_ctx.
     bind_e (if truthy messages
             then bind_e (py_last messages) (\<lambda>m. py_getitem m ''timestamp'')
             else Inr JNull) (\<lambda>last_at.
     Inr \<lparr>total_messages = total,
          user_messages = length user_msgs,
          assistant_messages = length assistant_msgs,
          has_document_context = has_ctx,
          last_message_at = last_at\<rparr>)))))) = Inr st"
    unfolding get_session_stats_def by (rule bind_e_InrE)
  from r1 obtain items where 2: "py_iter messages = Inr items"
    and r2: "bind_e (filter_role ''user'' items) (\<lambda>user_msgs.
     bind_e (filter_role ''assistant'' items) (\<lambda>assistant_msgs.
     bind_e (py_len messages) (\<lambda>total.
     bind_e (any_document_context items) (\<lambda>has_ctx.
     bind_e (if truthy messages
             then bind_e (py_last messages) (\<lambda>m. py_getitem m ''timestamp'')
             else Inr JNull) (\<lambda>last_at.
     Inr \<lparr>total_messages = total,
          user_messages = length user_msgs,
          assistant_messages = length assistant_msgs,
          has_document_context = has_ctx,
          last_message_at = last_at\<rparr>))))) = Inr st"
    by (rule bind_e_InrE)
  from r2 obtain us where 3: "filter_role ''user'' items = Inr us"
    and r3: "bind_e (filter_role ''assistant'' items) (\<lambda>assistant_msgs.
     bind_e (py_len messages) (\<lambda>total.
     bind_e (any_document_context items) (\<lambda>has_ctx.
     bind_e (if truthy messages
             then bind_e (py_last messages) (\<lambda>m. py_getitem m ''timestamp'')
             else Inr JNull) (\<lambda>last_at.
     Inr \<lparr>total_messages = total,
          user_messages = length us,
          assistant_messages = length assistant_msgs,
          has_document_context = has_ctx,
          last_message_at = last_at\<rparr>)))) = Inr st"
    by (rule bind_e_InrE)
  from r3 obtain as where 4: "filter_role ''assistant'' items = Inr as"
    and r4: "bind_e (py_len messages) (\<lambda>total.
     bind_e (any_document_context items) (\<lambda>has_ctx.
     bind_e (if truthy messages
             then bind_e (py_last messages) (\<lambda>m. py_getitem m ''timestamp'')
             else Inr JNull) (\<lambda>last_at.
     Inr \<lparr>total_messages = total,
          user_messages = length us,
          assistant_messages = length as,
          has_document_context = has_ctx,
          last_message_at = last_at\<rparr>))) = Inr st"
    by (rule bind_e_InrE)
  from r4 obtain total where 5: "py_len messages = Inr total"
    and r5: "bind_e (any_document_context items) (\<lambda>has_ctx.
     bind_e (if truthy messages
             then bind_e (py_last messages) (\<lambda>m. py_getitem m ''timestamp'')
             else Inr JNull) (\<lambda>last_at.
     Inr \<lparr>total_messages = total,
          user_messages = length us,
          assistant_messages = length as,
          has_document_context = has_ctx,
          last_message_at = last_at\<rparr>)) = Inr st"
    by (rule bind_e_InrE)
  from r5 obtain b where 6: "any_document_context items = Inr b"
    and r6: "bind_e (if truthy messages
             then bind_e (py_last messages) (\<lambda>m. py_getitem m ''timestamp'')
             else Inr JNull) (\<lambda>last_at.
     Inr \<lparr>total_messages = total,
          user_messages = length us,
          assistant_messages = length as,
          has_document_context = b,
          last_message_at = last_at\<rparr>) = Inr st"
    by (rule bind_e_InrE)
  from r6 obtain la where 7: "(if truthy messages
             then bind_e (py_last messages) (\<lambda>m. py_getitem m ''timestamp'')
             else Inr JNull) = Inr la"
    and r7: "Inr \<lparr>total_messages = total,
          user_messages = length us,
          assistant_messages = length as,
          has_document_context = b,
          last_message_at = la\<rparr> = (Inr st :: error + stats)"
    by (rule bind_e_InrE)
  from r7 have st: "st = \<lparr>total_messages = total, user_messages = length us,
      assistant_messages = length as, has_document_context = b, last_message_at = la\<rparr>"
    by simp
  from 1 2 3 4 5 6 7 st show thesis by (rule that)
qed

lemma stats_counts_le:
  assumes "get_session_stats self fs sid = Inr st"
  shows "user_messages st + assistant_messages st \<le> total_messages st"
proof -
  from assms obtain messages items us as total b la where
    it: "py_iter messages = Inr items"
    and us: "filter_role ''user'' items = Inr us" and as: "filter_role ''assistant'' items = Inr as"
    and len: "py_len messages = Inr total"
    and st: "st = \<lparr>total_messages = total, user_messages = length us, assistant_messages = length as,
           has_document_context = b, last_message_at = la\<rparr>"
    by (rule get_session_stats_Inr)
  have n: "total = length items" by (rule iter_len [OF it len])
  have "length us + length as \<le> length items"
    unfolding filter_role_Inr [OF us] filter_role_Inr [OF as]
    by (rule disjoint_filters_length) auto
  with n st show ?thesis by simp
qed

lemma stats_of_list:
  assumes "get_messages self fs sid = Inr (JList ms)" and "get_session_stats self fs sid = Inr st"
  shows "st = stats_view ms"
proof -
  from assms(2) obtain messages items us as total b la where
    gm: "get_messages self fs sid = Inr messages"
    and it: "py_iter messages = Inr items"
    and us: "filter_role ''user'' items = Inr us" and as: "filter_role ''assistant'' items = Inr as"
    and len: "py_len messages = Inr total"
    and b: "any_document_context items = Inr b"
    and la: "(if truthy messages then bind_e (py_last messages) (\<lambda>m. py_getitem m ''timestamp'') else Inr JNull) = Inr la"
    and st: "st = \<lparr>total_messages = total, user_messages = length us, assistant_messages = length as,
           has_document_context = b, last_message_at = la\<rparr>"
    by (rule get_session_stats_Inr)
  from gm assms(1) have m: "messages = JList ms" by simp
  with it have items: "items = ms" by simp
  from len m have tot: "total = length ms" by simp
  from la m have la': "la = (if ms = [] then JNull else msg_field (last ms) ''timestamp'')"
    by (auto simp: bind_e_def msg_field_def split: if_splits)
  show ?thesis
    unfolding st stats_view_def filter_role_Inr [OF us] filter_role_Inr [OF as]
      any_document_context_Inr [OF b] la' tot items
    by simp
qed

lemma filter_role_new:
  "filter_role r (map new_message cs) = Inr (map new_message (filter (\<lambda>c. role c = r) cs))"
  by (induction cs) (auto simp: bind_e_def new_message_def)

lemma truthy_or_empty_dict:
  "truthy (or_empty_dict d) = (d \<noteq> None \<and> d \<noteq> Some [])"
  by (cases d) (auto simp: or_empty_dict_def)

lemma any_document_context_new:
  "any_document_context (map new_message cs) =
     Inr (list_ex (\<lambda>c. document_context c \<noteq> None \<and> document_context c \<noteq> Some []) cs)"
  by (induction cs) (auto simp: bind_e_def new_message_def truthy_or_empty_dict)

lemma py_getitem_new_timestamp:
  "py_getitem (new_message c) ''timestamp'' = Inr (JStr (now c))"
  by (simp add: new_message_def)

lemma stats_of_new:
  assumes "get_messages self fs sid = Inr (JList (map new_message cs))"
  shows "get_session_stats self fs sid =
    Inr \<lparr>total_messages = length cs,
         user_messages = length (filter (\<lambda>c. role c = ''user'') cs),
         assistant_messages = length (filter (\<lambda>c. role c = ''assistant'') cs),
         has_document_context = list_ex (\<lambda>c. document_context c \<noteq> None \<and> document_context c \<noteq> Some []) cs,
         last_message_at = (if cs = [] then JNull else JStr (now (last cs)))\<rparr>"
  unfolding get_session_stats_def assms
  by (simp add: bind_e_def filter_role_new any_document_context_new last_map py_getitem_new_timestamp)

section \<open>Properties of the retriever\<close>

lemma scores_elementwise:
  "map2 (/) (map (\<lambda>row. dot row q) E) (map (\<lambda>n. n * c + e) (map norm_vec E)) =
     map (\<lambda>row. dot row q / (norm_vec row * c + e)) E"
  by (induction E) simp_all

lemma cosine_scores_ok:
  assumes "list_all (\<lambda>row. length row = length q) E"
  shows "cosine_scores E q = Inr (map (\<lambda>row. dot row q / (norm_vec row * norm_vec q + eps)) E)"
  using assms
  by (simp add: cosine_scores_def np_dot_def bind_e_def norm_rows_def scores_elementwise del: map_map)

lemma cosine_scores_Inr:
  assumes "cosine_scores E q = Inr scores"
  shows "scores = map (\<lambda>row. dot row q / (norm_vec row * norm_vec q + eps)) E"
  using assms
  by (auto simp add: cosine_scores_def np_dot_def bind_e_def norm_rows_def scores_elementwise
      simp del: map_map split: if_splits)

lemma stable_argsort_is_argsort: "is_argsort scores (stable_argsort scores)"
  by (simp add: is_argsort_def stable_argsort_def sorted_sort_key)

lemma reversed_argsort_is_argsort: "is_argsort scores (reversed_argsort scores)"
  by (simp add: is_argsort_def reversed_argsort_def sorted_sort_key)

lemma is_argsort_length:
  assumes "is_argsort scores order"
  shows "length order = length scores"
proof -
  from assms have "distinct order" and "set order = {0..<length scores}"
    by (simp_all add: is_argsort_def)
  then show ?thesis using distinct_card [of order] by simp
qed

lemma py_slice_from_drop: "\<exists>m. py_slice_from xs s = drop m xs"
  by (auto simp: py_slice_from_def)

lemma py_slice_from_last: "1 \<le> k \<Longrightarrow> py_slice_from xs (- k) = drop (length xs - nat k) xs"
  by (auto simp: py_slice_from_def intro!: arg_cong2 [where f = drop])

lemma top_indices_drop: "\<exists>m. top_indices np_argsort scores k = rev (drop m (np_argsort scores))"
  unfolding top_indices_def using py_slice_from_drop [of "np_argsort scores" "- k"] by auto

lemma top_indices_set:
  assumes "is_argsort scores (np_argsort scores)"
  shows "set (top_indices np_argsort scores k) \<subseteq> {0..<length scores}"
proof -
  obtain m where "top_indices np_argsort scores k = rev (drop m (np_argsort scores))"
    using top_indices_drop by blast
  moreover from assms have "set (np_argsort scores) = {0..<length scores}"
    by (simp add: is_argsort_def)
  ultimately show ?thesis using set_drop_subset [of m "np_argsort scores"] by auto
qed

lemma top_indices_distinct:
  assumes "is_argsort scores (np_argsort scores)"
  shows "distinct (top_indices np_argsort scores k)"
proof -
  obtain m where "top_indices np_argsort scores k = rev (drop m (np_argsort scores))"
    using top_indices_drop by blast
  with assms show ?thesis by (simp add: is_argsort_def)
qed

lemma top_indices_length:
  assumes "is_argsort scores (np_argsort scores)" and "1 \<le> k"
  shows "length (top_indices np_argsort scores k) = min (nat k) (length scores)"
  using assms(2) is_argsort_length [OF assms(1)]
  by (auto simp: top_indices_def py_slice_from_last)

lemma top_indices_descending:
  assumes "is_argsort scores (np_argsort scores)"
  shows "sorted (rev (map (\<lambda>i. scores ! i) (top_indices np_argsort scores k)))"
proof -
  obtain m where m: "top_indices np_argsort scores k = rev (drop m (np_argsort scores))"
    using top_indices_drop by blast
  from assms have "sorted (map (\<lambda>i. scores ! i) (np_argsort scores))" by (simp add: is_argsort_def)
  then have "sorted (drop m (map (\<lambda>i. scores ! i) (np_argsort scores)))"
    by (rule sorted_wrt_drop)
  then show ?thesis unfolding m by (simp add: rev_map drop_map)
qed

lemma top_indices_pairs:
  assumes "is_argsort scores (np_argsort scores)"
    and "a < b" and "b < length (top_indices np_argsort scores k)"
  shows "scores ! (top_indices np_argsort scores k ! b) \<le> scores ! (top_indices np_argsort scores k ! a)"
proof -
  let ?top = "top_indices np_argsort scores k"
  let ?n = "length ?top"
  have s: "sorted (rev (map (\<lambda>i. scores ! i) ?top))"
    using assms(1) by (rule top_indices_descending)
  from assms(2, 3) have "?n - 1 - b < ?n - 1 - a" and "?n - 1 - a < ?n" by simp_all
  with s have "rev (map (\<lambda>i. scores ! i) ?top) ! (?n - 1 - b) \<le> rev (map (\<lambda>i. scores ! i) ?top) ! (?n - 1 - a)"
    by (simp add: sorted_iff_nth_mono)
  with assms(2, 3) show ?thesis by (simp add: rev_nth)
qed

lemma top_indices_best:
  assumes "is_argsort scores (np_argsort scores)"
    and "i < length scores" and "i \<notin> set (top_indices np_argsort scores k)"
    and "j \<in> set (top_indices np_argsort scores k)"
  shows "scores ! i \<le> scores ! j"
proof -
  obtain m where m: "top_indices np_argsort scores k = rev (drop m (np_argsort scores))"
    using top_indices_drop by blast
  from assms(1, 2) have "i \<in> set (np_argsort scores)" by (simp add: is_argsort_def)
  then have "i \<in> set (take m (np_argsort scores)) \<union> set (drop m (np_argsort scores))"
    by (simp flip: set_append)
  with assms(3) m have i: "i \<in> set (take m (np_argsort scores))" by simp
  from assms(4) m have j: "j \<in> set (drop m (np_argsort scores))" by simp
  have "sorted (map (\<lambda>i. scores ! i) (take m (np_argsort scores) @ drop m (np_argsort scores)))"
    using assms(1) by (simp add: is_argsort_def)
  then show ?thesis using i j unfolding map_append sorted_append by auto
qed

lemma map_e_list_index:
  "\<forall>i\<in>set is. i < length xs \<Longrightarrow> map_e (list_index xs) is = Inr (map (\<lambda>i. xs ! i) is)"
  by (induction "is") (simp_all add: bind_e_def list_index_def)

lemma simple_retrieve_ok:
  assumes "cosine_scores E q = Inr scores" and "length E \<le> length docs"
    and "is_argsort scores (np_argsort scores)"
  shows "simple_retrieve np_argsort docs E q k =
           (map (\<lambda>i. docs ! i) (top_indices np_argsort scores k),
            map (\<lambda>i. scores ! i) (top_indices np_argsort scores k))"
proof -
  have "length scores = length E" using cosine_scores_Inr [OF assms(1)] by simp
  with assms(2, 3) top_indices_set [where scores = scores and np_argsort = np_argsort and k = k]
  have "\<forall>i\<in>set (top_indices np_argsort scores k). i < length docs" by auto
  from map_e_list_index [OF this] assms(1) show ?thesis
    by (simp add: simple_retrieve_def bind_e_def Let_def)
qed

section \<open>The claims about the session store\<close>

text \<open>
  Claim C1 (append-only law), as the specification states it: after any sequence of \<open>N\<close>
  serialized \<^verbatim>\<open>add_message\<close> calls on a session, \<^verbatim>\<open>get_messages\<close> returns \<open>N\<close> messages, and a
  stored message is never changed. That fails when a call raises. A call whose payload
  \<^verbatim>\<open>json.dumps\<close> rejects stores nothing; and since \<^verbatim>\<open>json.dumps\<close> runs after the file was opened
  for writing, the file is left empty: after one good call and one rejected call the session reads
  as empty, not as two messages, and the first message is gone.
\<close>

theorem append_only_law_counterexample:
  "get_messages default_history
     (snd (add_messages default_history Map.empty ''s1'' [user_hello ''id-1'' ''2024-01-01T00:00:00'']))
     ''s1'' = Inr (JList [new_message (user_hello ''id-1'' ''2024-01-01T00:00:00'')]) \<and>
   fst (add_messages default_history Map.empty ''s1''
          [user_hello ''id-1'' ''2024-01-01T00:00:00'', count_call ''id-2'' ''2024-01-01T00:00:01'']) =
     Inl ValueError \<and>
   get_messages default_history
     (snd (add_messages default_history Map.empty ''s1''
          [user_hello ''id-1'' ''2024-01-01T00:00:00'', count_call ''id-2'' ''2024-01-01T00:00:01'']))
     ''s1'' = Inr (JList [])"
proof -
  define m1 where "m1 = new_message (user_hello ''id-1'' ''2024-01-01T00:00:00'')"
  define fs1 where
    "fs1 = [get_session_path default_history ''s1'' \<mapsto> Encoded (JDict [(''messages'', JList [m1])])]"
  have start: "get_messages default_history Map.empty ''s1'' = Inr (JList [])"
    by (simp add: get_messages_absent)
  have ok: "within_digit_limit m1" unfolding m1_def by (rule hello_within)
  have first: "add_message default_history Map.empty ''s1'' (user_hello ''id-1'' ''2024-01-01T00:00:00'') =
      (Inr m1, fs1)"
    using add_message_list [OF start ok [unfolded m1_def]] by (simp add: m1_def fs1_def)
  have stored: "get_messages default_history fs1 ''s1'' = Inr (JList [m1])"
    unfolding fs1_def using get_messages_written [of "JList [m1]" default_history Map.empty "''s1''"] ok
    by simp
  have second: "add_message default_history fs1 ''s1'' (count_call ''id-2'' ''2024-01-01T00:00:01'') =
      (Inl ValueError, fs1(get_session_path default_history ''s1'' \<mapsto> Malformed))"
    by (rule add_message_rejected [OF stored count_call_rejected])
  have lost: "get_messages default_history (fs1(get_session_path default_history ''s1'' \<mapsto> Malformed)) ''s1'' =
      Inr (JList [])"
    by (rule get_messages_malformed) simp
  from first stored second lost show ?thesis by (simp add: m1_def)
qed

text \<open>
  Claim C1, amended. Starting from an absent session, when every call of a sequence of serialized
  \<^verbatim>\<open>add_message\<close> calls returns, \<^verbatim>\<open>get_messages\<close> afterwards returns exactly as many messages as
  there were calls, in call order, each equal to the message built at its call; the same holds
  after every prefix of the calls, so the later calls change no stored message. And every call
  does return when each message is within the digit limit of \<^verbatim>\<open>json.dumps\<close>.
\<close>

theorem append_only_law:
  "(fs (get_session_path self sid) = None \<and> fst (add_messages self fs sid cs) = Inr ms \<longrightarrow>
      get_messages self (snd (add_messages self fs sid cs)) sid = Inr (JList ms) \<and>
      length ms = length cs \<and>
      (\<forall>i<length cs. ms ! i = new_message (cs ! i)) \<and>
      (\<forall>n\<le>length cs.
         get_messages self (snd (add_messages self fs sid (take n cs))) sid = Inr (JList (take n ms)))) \<and>
   (fs (get_session_path self sid) = None \<and> list_all (\<lambda>c. within_digit_limit (new_message c)) cs \<longrightarrow>
      fst (add_messages self fs sid cs) = Inr (map new_message cs))"
proof (intro conjI impI)
  assume a: "fs (get_session_path self sid) = None \<and> fst (add_messages self fs sid cs) = Inr ms"
  then have start: "get_messages self fs sid = Inr (JList [])" by (simp add: get_messages_absent)
  from a have ok: "list_all (\<lambda>c. within_digit_limit (new_message c)) cs"
    by (blast intro: add_messages_Inr)
  have run: "fst (add_messages self fs sid ds) = Inr (map new_message ds) \<and>
             get_messages self (snd (add_messages self fs sid ds)) sid = Inr (JList (map new_message ds))"
    if "list_all (\<lambda>c. within_digit_limit (new_message c)) ds" for ds
    using add_messages_list [OF start that] by simp
  from run [OF ok] a have ms: "ms = map new_message cs" by simp
  from run [OF ok] ms show "get_messages self (snd (add_messages self fs sid cs)) sid = Inr (JList ms)"
    by simp
  from ms show "length ms = length cs" by simp
  from ms show "\<forall>i<length cs. ms ! i = new_message (cs ! i)" by simp
  have "list_all (\<lambda>c. within_digit_limit (new_message c)) (take n cs)" for n
    using ok by (auto simp: list_all_iff dest: in_set_takeD)
  from run [OF this] ms
  show "\<forall>n\<le>length cs.
         get_messages self (snd (add_messages self fs sid (take n cs))) sid = Inr (JList (take n ms))"
    by (simp add: take_map)
next
  assume a: "fs (get_session_path self sid) = None \<and> list_all (\<lambda>c. within_digit_limit (new_message c)) cs"
  then have start: "get_messages self fs sid = Inr (JList [])" by (simp add: get_messages_absent)
  from a add_messages_list [OF start, of cs]
  show "fst (add_messages self fs sid cs) = Inr (map new_message cs)" by simp
qed

theorem append_only_law_witness:
  "get_messages default_history
     (snd (add_messages default_history Map.empty ''s1''
        [user_hello ''id-1'' ''2024-01-01T00:00:00'', assistant_hi_there ''id-2'' ''2024-01-01T00:00:01'']))
     ''s1'' =
   Inr (JList [new_message (user_hello ''id-1'' ''2024-01-01T00:00:00''),
               new_message (assistant_hi_there ''id-2'' ''2024-01-01T00:00:01'')])"
proof -
  note law = append_only_law [where fs = Map.empty and self = default_history and sid = "''s1''"
      and cs = "[user_hello ''id-1'' ''2024-01-01T00:00:00'', assistant_hi_there ''id-2'' ''2024-01-01T00:00:01'']"
      and ms = "[new_message (user_hello ''id-1'' ''2024-01-01T00:00:00''),
                 new_message (assistant_hi_there ''id-2'' ''2024-01-01T00:00:01'')]"]
  have ok: "list_all (\<lambda>c. within_digit_limit (new_message c))
      [user_hello ''id-1'' ''2024-01-01T00:00:00'', assistant_hi_there ''id-2'' ''2024-01-01T00:00:01'']"
    by (simp add: hello_within hi_there_within)
  from law ok have returned: "fst (add_messages default_history Map.empty ''s1''
        [user_hello ''id-1'' ''2024-01-01T00:00:00'', assistant_hi_there ''id-2'' ''2024-01-01T00:00:01'']) =
      Inr [new_message (user_hello ''id-1'' ''2024-01-01T00:00:00''),
           new_message (assistant_hi_there ''id-2'' ''2024-01-01T00:00:01'')]"
    by simp
  with law show ?thesis by simp
qed

text \<open>
  Claim C2 (corruption recovery): \<^verbatim>\<open>get_messages\<close> returns the empty list and raises nothing
  when the record is absent or corrupt. The code catches \<^verbatim>\<open>JSONDecodeError\<close> and
  \<^verbatim>\<open>FileNotFoundError\<close>: a record whose text is not valid JSON reads as the empty list. It misses
  the record whose bytes are not text: reading it raises \<^verbatim>\<open>UnicodeDecodeError\<close>, which is not
  caught, and \<^verbatim>\<open>get_messages\<close> raises.
\<close>

theorem get_messages_undecodable_record:
  "get_messages default_history [get_session_path default_history ''s1'' \<mapsto> Malformed] ''s1'' =
     Inr (JList []) \<and>
   get_messages default_history [get_session_path default_history ''s1'' \<mapsto> NotText] ''s1'' =
     Inl UnicodeDecodeError"
  by (simp add: get_messages_malformed get_messages_not_text)



text \<open>
  Claim C8 (clear idempotence). \<^verbatim>\<open>clear_session\<close> returns true exactly when the session's file
  existed, and removes that file and no other; a second call right after it returns false, and the
  session then reads as empty.
\<close>

theorem clear_session_idempotent:
  "fst (clear_session self fs sid) = (fs (get_session_path self sid) \<noteq> None) \<and>
   snd (clear_session self fs sid) = fs(get_session_path self sid := None) \<and>
   fst (clear_session self (snd (clear_session self fs sid)) sid) = False \<and>
   get_messages self (snd (clear_session self fs sid)) sid = Inr (JList [])"
  by (simp add: clear_session_def path_exists_def os_remove_def get_messages_def Let_def fun_upd_idem)

theorem clear_session_idempotent_witness:
  "fst (clear_session default_history
          [get_session_path default_history ''s1'' \<mapsto> Encoded (JDict [(''messages'', JList [])])] ''s1'') = True \<and>
   fst (clear_session default_history
          (snd (clear_session default_history
             [get_session_path default_history ''s1'' \<mapsto> Encoded (JDict [(''messages'', JList [])])] ''s1''))
          ''s1'') = False"
proof -
  note t = clear_session_idempotent [where self = default_history and sid = "''s1''"
      and fs = "[get_session_path default_history ''s1'' \<mapsto> Encoded (JDict [(''messages'', JList [])])]"]
  from t have first: "fst (clear_session default_history
          [get_session_path default_history ''s1'' \<mapsto> Encoded (JDict [(''messages'', JList [])])] ''s1'') =
        ([get_session_path default_history ''s1'' \<mapsto> Encoded (JDict [(''messages'', JList [])])]
           (get_session_path default_history ''s1'') \<noteq> None)"
    by (rule conjunct1)
  from t have second: "fst (clear_session default_history
          (snd (clear_session default_history
             [get_session_path default_history ''s1'' \<mapsto> Encoded (JDict [(''messages'', JList [])])] ''s1''))
          ''s1'') = False"
    by (elim conjE)
  from first have "fst (clear_session default_history
          [get_session_path default_history ''s1'' \<mapsto> Encoded (JDict [(''messages'', JList [])])] ''s1'') = True"
    by simp
  then show ?thesis using second by (rule conjI)
qed

text \<open>
  Claim C9 (statistics). \<^verbatim>\<open>get_session_stats\<close> depends on the store only through the result of
  \<^verbatim>\<open>get_messages\<close>. When that result is a list and the statistics are returned, they are the
  derived view of that list: the number of messages, the numbers of messages with the roles
  \<^verbatim>\<open>user\<close> and \<^verbatim>\<open>assistant\<close>, whether a message has a document context, and the timestamp of the
  last message, or \<^verbatim>\<open>None\<close> when there is none. For a session built from an absent session by
  \<^verbatim>\<open>add_message\<close> calls whose messages are within the digit limit the statistics are returned,
  with the counts of the calls. In particular, after \<^verbatim>\<open>add_message("s1", "user", "hello")\<close> and
  \<^verbatim>\<open>add_message("s1", "assistant", "hi there")\<close> they are 2 messages, 1 of the user, 1 of the
  assistant, no document context, and the timestamp of the second call.
\<close>

theorem session_stats_derived_view:
  "(get_messages self fs sid = get_messages self' fs' sid' \<longrightarrow>
      get_session_stats self fs sid = get_session_stats self' fs' sid') \<and>
   (get_messages self fs sid = Inr (JList ms) \<and> get_session_stats self fs sid = Inr st \<longrightarrow>
      st = stats_view ms \<and>
      total_messages st = length ms \<and>
      user_messages st = length (filter (\<lambda>m. msg_field m ''role'' = JStr ''user'') ms) \<and>
      assistant_messages st = length (filter (\<lambda>m. msg_field m ''role'' = JStr ''assistant'') ms) \<and>
      has_document_context st = list_ex (\<lambda>m. truthy (msg_field m ''document_context'')) ms \<and>
      last_message_at st = (if ms = [] then JNull else msg_field (last ms) ''timestamp'')) \<and>
   (fs (get_session_path self sid) = None \<and> list_all (\<lambda>c. within_digit_limit (new_message c)) cs \<longrightarrow>
      get_session_stats self (snd (add_messages self fs sid cs)) sid =
        Inr \<lparr>total_messages = length cs,
             user_messages = length (filter (\<lambda>c. role c = ''user'') cs),
             assistant_messages = length (filter (\<lambda>c. role c = ''assistant'') cs),
             has_document_context =
               list_ex (\<lambda>c. document_context c \<noteq> None \<and> document_context c \<noteq> Some []) cs,
             last_message_at = (if cs = [] then JNull else JStr (now (last cs)))\<rparr>) \<and>
   (fs (get_session_path self ''s1'') = None \<longrightarrow>
      get_session_stats self
        (snd (add_messages self fs ''s1'' [user_hello u1 t1, assistant_hi_there u2 t2])) ''s1'' =
        Inr \<lparr>total_messages = 2, user_messages = 1, assistant_messages = 1,
             has_document_context = False, last_message_at = JStr t2\<rparr>)"
proof (intro conjI impI)
  assume "get_messages self fs sid = get_messages self' fs' sid'"
  then show "get_session_stats self fs sid = get_session_stats self' fs' sid'"
    by (simp add: get_session_stats_def)
next
  assume a: "get_messages self fs sid = Inr (JList ms) \<and> get_session_stats self fs sid = Inr st"
  then have st: "st = stats_view ms" by (blast intro: stats_of_list)
  then show "st = stats_view ms" .
  from st show "total_messages st = length ms" by (simp add: stats_view_def)
  from st show "user_messages st = length (filter (\<lambda>m. msg_field m ''role'' = JStr ''user'') ms)"
    by (simp add: stats_view_def)
  from st show "assistant_messages st = length (filter (\<lambda>m. msg_field m ''role'' = JStr ''assistant'') ms)"
    by (simp add: stats_view_def)
  from st show "has_document_context st = list_ex (\<lambda>m. truthy (msg_field m ''document_context'')) ms"
    by (simp add: stats_view_def)
  from st show "last_message_at st = (if ms = [] then JNull else msg_field (last ms) ''timestamp'')"
    by (simp add: stats_view_def)
next
  assume absent: "fs (get_session_path self sid) = None \<and> list_all (\<lambda>c. within_digit_limit (new_message c)) cs"
  then have "get_messages self fs sid = Inr (JList [])" by (simp add: get_messages_absent)
  from add_messages_list [OF this, of cs] absent
  have "get_messages self (snd (add_messages self fs sid cs)) sid = Inr (JList (map new_message cs))"
    by simp
  then show "get_session_stats self (snd (add_messages self fs sid cs)) sid =
        Inr \<lparr>total_messages = length cs,
             user_messages = length (filter (\<lambda>c. role c = ''user'') cs),
             assistant_messages = length (filter (\<lambda>c. role c = ''assistant'') cs),
             has_document_context =
               list_ex (\<lambda>c. document_context c \<noteq> None \<and> document_context c \<noteq> Some []) cs,
             last_message_at = (if cs = [] then JNull else JStr (now (last cs)))\<rparr>"
    by (rule stats_of_new)
next
  assume absent: "fs (get_session_path self ''s1'') = None"
  then have "get_messages self fs ''s1'' = Inr (JList [])" by (rule get_messages_absent)
  from add_messages_list [OF this, of "[user_hello u1 t1, assistant_hi_there u2 t2]"]
    hello_within [of u1 t1] hi_there_within [of u2 t2]
  have "get_messages self (snd (add_messages self fs ''s1'' [user_hello u1 t1, assistant_hi_there u2 t2])) ''s1'' =
          Inr (JList (map new_message [user_hello u1 t1, assistant_hi_there u2 t2]))"
    by simp
  from stats_of_new [OF this]
  show "get_session_stats self
        (snd (add_messages self fs ''s1'' [user_hello u1 t1, assistant_hi_there u2 t2])) ''s1'' =
        Inr \<lparr>total_messages = 2, user_messages = 1, assistant_messages = 1,
             has_document_context = False, last_message_at = JStr t2\<rparr>"
    by (simp add: user_hello_def assistant_hi_there_def)
qed

theorem session_stats_derived_view_witness:
  "get_session_stats default_history
     (snd (add_messages default_history Map.empty ''s1''
        [user_hello ''id-1'' ''2024-01-01T00:00:00'', assistant_hi_there ''id-2'' ''2024-01-01T00:00:01'']))
     ''s1'' =
   Inr \<lparr>total_messages = 2, user_messages = 1, assistant_messages = 1,
        has_document_context = False, last_message_at = JStr ''2024-01-01T00:00:01''\<rparr>"
  using session_stats_derived_view [where self = default_history and fs = Map.empty
      and ?u1.0 = "''id-1''" and ?t1.0 = "''2024-01-01T00:00:00''"
      and ?u2.0 = "''id-2''" and ?t2.0 = "''2024-01-01T00:00:01''"]
  by simp

text \<open>
  Claim C10 (role counts). Whenever \<^verbatim>\<open>get_session_stats\<close> returns, the user and assistant counts
  together are at most the total. \<^verbatim>\<open>add_message\<close> stores any role string as it is given, without
  validation. So the inequality is strict for a reachable session: one message whose role is neither
  \<^verbatim>\<open>user\<close> nor \<^verbatim>\<open>assistant\<close>, added to an absent session, gives a total of 1 and both counts 0.
\<close>

theorem role_counts_bounded:
  "(get_session_stats self fs sid = Inr st \<longrightarrow>
      user_messages st + assistant_messages st \<le> total_messages st) \<and>
   (get_messages self fs sid = Inr (JList old) \<and> within_digit_limit (new_message c) \<longrightarrow>
      fst (add_message self fs sid c) = Inr (new_message c) \<and>
      py_getitem (new_message c) ''role'' = Inr (JStr (role c))) \<and>
   (fs (get_session_path self sid) = None \<and> within_digit_limit (new_message c) \<and>
    role c \<noteq> ''user'' \<and> role c \<noteq> ''assistant'' \<longrightarrow>
      (\<exists>st'. get_session_stats self (snd (add_message self fs sid c)) sid = Inr st' \<and>
             total_messages st' = 1 \<and> user_messages st' = 0 \<and> assistant_messages st' = 0 \<and>
             user_messages st' + assistant_messages st' < total_messages st'))"
proof (intro conjI impI)
  assume "get_session_stats self fs sid = Inr st"
  then show "user_messages st + assistant_messages st \<le> total_messages st"
    by (rule stats_counts_le)
next
  assume "get_messages self fs sid = Inr (JList old) \<and> within_digit_limit (new_message c)"
  then have "get_messages self fs sid = Inr (JList old)" and "within_digit_limit (new_message c)"
    by simp_all
  from add_message_list [OF this]
  show "fst (add_message self fs sid c) = Inr (new_message c)" by simp
next
  show "py_getitem (new_message c) ''role'' = Inr (JStr (role c))"
    by (simp add: new_message_def)
next
  assume a: "fs (get_session_path self sid) = None \<and> within_digit_limit (new_message c) \<and>
    role c \<noteq> ''user'' \<and> role c \<noteq> ''assistant''"
  then have lim: "within_digit_limit (new_message c)" by simp
  from a have "get_messages self fs sid = Inr (JList [])" by (simp add: get_messages_absent)
  from add_message_list [OF this lim]
  have step: "snd (add_message self fs sid c) =
      fs(get_session_path self sid \<mapsto> Encoded (JDict [(''messages'', JList [new_message c])]))"
    by simp
  have "get_messages self (snd (add_message self fs sid c)) sid = Inr (JList (map new_message [c]))"
    unfolding step using get_messages_written [of "JList [new_message c]" self fs sid] lim by simp
  from stats_of_new [OF this] a
  show "\<exists>st'. get_session_stats self (snd (add_message self fs sid c)) sid = Inr st' \<and>
             total_messages st' = 1 \<and> user_messages st' = 0 \<and> assistant_messages st' = 0 \<and>
             user_messages st' + assistant_messages st' < total_messages st'"
    by simp
qed

theorem role_counts_bounded_witness:
  "\<exists>st'. get_session_stats default_history
           (snd (add_message default_history Map.empty ''s1''
              \<lparr>role = ''system'', content = ''note'', document_context = None, metadata = None,
               uuid = ''id-1'', now = ''2024-01-01T00:00:00''\<rparr>)) ''s1'' = Inr st' \<and>
         user_messages st' + assistant_messages st' < total_messages st'"
  using role_counts_bounded [where self = default_history and fs = Map.empty and sid = "''s1''"
      and c = "\<lparr>role = ''system'', content = ''note'', document_context = None, metadata = None,
               uuid = ''id-1'', now = ''2024-01-01T00:00:00''\<rparr>"]
  by (auto simp: new_message_def or_empty_dict_def)

section \<open>The claims about the retriever\<close>

text \<open>
  Claim C3 (tie-break), as the specification states it: two chunks with identical scores appear in
  ascending order of their original index. The code does not see to that. It takes the indices in
  the order \<^verbatim>\<open>np.argsort\<close> gives them and reverses the last \<open>k\<close>, so tied chunks come out in the
  reverse of the order \<^verbatim>\<open>np.argsort\<close> left them in. With a sort that leaves two equal scores in
  ascending order of index, the chunk of index 1 is returned before the chunk of index 0.
\<close>

theorem tie_break_counterexample:
  "cosine_scores [[1, 0], [1, 0]] [1, 0] = Inr [1000000000 / 1000000001, 1000000000 / 1000000001] \<and>
   is_argsort [1000000000 / 1000000001, 1000000000 / 1000000001]
     (stable_argsort [1000000000 / 1000000001, 1000000000 / 1000000001]) \<and>
   top_indices stable_argsort [1000000000 / 1000000001, 1000000000 / 1000000001] 5 = [1, 0] \<and>
   simple_retrieve stable_argsort [''chunk 0'', ''chunk 1''] [[1, 0], [1, 0]] [1, 0] 5 =
     ([''chunk 1'', ''chunk 0''], [1000000000 / 1000000001, 1000000000 / 1000000001])"
proof -
  have s: "cosine_scores [[1, 0], [1, 0]] [1, 0] = Inr [1000000000 / 1000000001, 1000000000 / 1000000001]"
    by (simp add: cosine_scores_def np_dot_def bind_e_def dot_def norm_rows_def norm_vec_def eps_def)
  have t: "top_indices stable_argsort [1000000000 / 1000000001, 1000000000 / 1000000001] 5 = [1, 0]"
    by (simp add: top_indices_def stable_argsort_def py_slice_from_def upt_rec)
  have "simple_retrieve stable_argsort [''chunk 0'', ''chunk 1''] [[1, 0], [1, 0]] [1, 0] 5 =
     ([''chunk 1'', ''chunk 0''], [1000000000 / 1000000001, 1000000000 / 1000000001])"
    unfolding simple_retrieve_def s by (simp add: bind_e_def t list_index_def)
  with s t stable_argsort_is_argsort show ?thesis by simp
qed

text \<open>
  Claim C3, amended. The ranked output of the semantic scorer is in descending order of score. The
  order of chunks with identical scores is not determined by the code: the output is the reverse of
  the tail of what \<^verbatim>\<open>np.argsort\<close> returns, and \<^verbatim>\<open>np.argsort\<close> promises no order among equal scores.
  For the scores 1, 1, 0, 0 one sort that keeps the promise gives the tied chunks in descending
  order of index and another gives them in ascending order.
\<close>

theorem tie_order_unspecified:
  "(is_argsort scores (np_argsort scores) \<longrightarrow>
      (\<forall>a b. a < b \<and> b < length (top_indices np_argsort scores k) \<longrightarrow>
         scores ! (top_indices np_argsort scores k ! b) \<le> scores ! (top_indices np_argsort scores k ! a))) \<and>
   (\<exists>m. top_indices np_argsort scores k = rev (drop m (np_argsort scores))) \<and>
   is_argsort [1, 1, 0, 0] (stable_argsort [1, 1, 0, 0]) \<and>
   top_indices stable_argsort [1, 1, 0, 0] 4 = [1, 0, 3, 2] \<and>
   is_argsort [1, 1, 0, 0] (reversed_argsort [1, 1, 0, 0]) \<and>
   top_indices reversed_argsort [1, 1, 0, 0] 4 = [0, 1, 2, 3]"
proof (intro conjI impI allI)
  fix a b
  assume "is_argsort scores (np_argsort scores)"
    and "a < b \<and> b < length (top_indices np_argsort scores k)"
  then show "scores ! (top_indices np_argsort scores k ! b) \<le> scores ! (top_indices np_argsort scores k ! a)"
    by (simp add: top_indices_pairs)
next
  show "\<exists>m. top_indices np_argsort scores k = rev (drop m (np_argsort scores))"
    by (rule top_indices_drop)
next
  show "is_argsort [1, 1, 0, 0] (stable_argsort [1, 1, 0, 0])" by (rule stable_argsort_is_argsort)
next
  show "top_indices stable_argsort [1, 1, 0, 0] 4 = [1, 0, 3, 2]"
    by (simp add: top_indices_def stable_argsort_def py_slice_from_def upt_rec)
next
  show "is_argsort [1, 1, 0, 0] (reversed_argsort [1, 1, 0, 0])" by (rule reversed_argsort_is_argsort)
next
  show "top_indices reversed_argsort [1, 1, 0, 0] 4 = [0, 1, 2, 3]"
    by (simp add: top_indices_def reversed_argsort_def py_slice_from_def upt_rec)
qed

theorem tie_order_unspecified_witness:
  "[1, 1, 0, 0 :: real] ! (top_indices stable_argsort [1, 1, 0, 0] 4 ! 2) \<le>
   [1, 1, 0, 0] ! (top_indices stable_argsort [1, 1, 0, 0] 4 ! 0)"
proof -
  note t = tie_order_unspecified [where np_argsort = stable_argsort and scores = "[1, 1, 0, 0]" and k = 4]
  from t have valid: "is_argsort [1, 1, 0, 0] (stable_argsort [1, 1, 0, 0])" by blast
  from t have top: "top_indices stable_argsort [1, 1, 0, 0] 4 = [1, 0, 3, 2]" by blast
  from t valid have "\<forall>a b. a < b \<and> b < length (top_indices stable_argsort [1, 1, 0, 0] 4) \<longrightarrow>
         [1, 1, 0, 0 :: real] ! (top_indices stable_argsort [1, 1, 0, 0] 4 ! b) \<le>
         [1, 1, 0, 0] ! (top_indices stable_argsort [1, 1, 0, 0] 4 ! a)"
    by blast
  then have "0 < (2::nat) \<and> 2 < length (top_indices stable_argsort [1, 1, 0, 0] 4) \<longrightarrow>
         [1, 1, 0, 0 :: real] ! (top_indices stable_argsort [1, 1, 0, 0] 4 ! 2) \<le>
         [1, 1, 0, 0] ! (top_indices stable_argsort [1, 1, 0, 0] 4 ! 0)"
    by blast
  moreover from top have "2 < length (top_indices stable_argsort [1, 1, 0, 0] 4)" by simp
  ultimately show ?thesis by simp
qed

text \<open>
  Claim C4 (ingest), as the specification states it: an ingest fails with a dimension mismatch when
  the numbers of chunks and embeddings differ, and a failed ingest leaves the previous corpus
  unchanged. The code has no such check: \<^verbatim>\<open>add_documents\<close> receives the chunks only and asks the
  embedding model for the embeddings. With a model that returns one embedding for two chunks the
  ingest succeeds and stores both. And when the model fails, the documents have already been
  replaced.
\<close>

theorem ingest_no_dimension_check_counterexample:
  "add_documents (encode_fixed [[1]]) init_retriever [''first chunk'', ''second chunk''] =
     (Inr (), \<lparr>documents = [''first chunk'', ''second chunk''], document_embeddings = Some [[1]]\<rparr>) \<and>
   add_documents encode_failing \<lparr>documents = [''old''], document_embeddings = Some [[1]]\<rparr> [''new''] =
     (Inl (UpstreamError ''encode failed''), \<lparr>documents = [''new''], document_embeddings = Some [[1]]\<rparr>)"
  by (simp add: add_documents_def encode_fixed_def encode_failing_def init_retriever_def strip_def is_space_def Let_def)

text \<open>
  Claim C4, amended. \<^verbatim>\<open>add_documents\<close> compares no lengths. An empty list of chunks leaves the
  retriever unchanged. Otherwise, when the embedding model succeeds on the cleaned chunks, the
  retriever holds the cleaned chunks and whatever the model returned. The ingest fails only when
  the model fails, with the model's error, and the previous embeddings then stay in place. The
  ingest of the upload handler pairs chunks and embeddings with \<^verbatim>\<open>zip\<close>, again without a check,
  and succeeds whenever both calls of the model do.
\<close>

theorem add_documents_outcomes:
  "(chunks = [] \<longrightarrow> add_documents encode self chunks = (Inr (), self)) \<and>
   (chunks \<noteq> [] \<and> map strip (filter (\<lambda>chunk. strip chunk \<noteq> []) chunks) = cleaned \<and> cleaned \<noteq> [] \<and>
      encode cleaned = Inr E \<longrightarrow>
      add_documents encode self chunks = (Inr (), self\<lparr>documents := cleaned, document_embeddings := Some E\<rparr>)) \<and>
   (fst (add_documents encode self chunks) = Inl e \<longrightarrow>
      encode (map strip (filter (\<lambda>chunk. strip chunk \<noteq> []) chunks)) = Inl e \<and>
      document_embeddings (snd (add_documents encode self chunks)) = document_embeddings self) \<and>
   (encode chunks = Inr embeddings \<and> encode (map fst (db @ zip chunks embeddings)) = Inr all_embeddings \<longrightarrow>
      upload_ingest encode db self chunks =
        (Inr (), db @ zip chunks embeddings,
         self\<lparr>documents := map fst (db @ zip chunks embeddings),
              document_embeddings := Some all_embeddings\<rparr>))"
proof (intro conjI impI)
  assume "chunks = []"
  then show "add_documents encode self chunks = (Inr (), self)" by (simp add: add_documents_def)
next
  assume "chunks \<noteq> [] \<and> map strip (filter (\<lambda>chunk. strip chunk \<noteq> []) chunks) = cleaned \<and> cleaned \<noteq> [] \<and>
      encode cleaned = Inr E"
  then show "add_documents encode self chunks =
      (Inr (), self\<lparr>documents := cleaned, document_embeddings := Some E\<rparr>)"
    by (auto simp: add_documents_def Let_def)
next
  assume f: "fst (add_documents encode self chunks) = Inl e"
  then show "encode (map strip (filter (\<lambda>chunk. strip chunk \<noteq> []) chunks)) = Inl e"
    by (auto simp: add_documents_def Let_def split: if_splits sum.splits)
  from f show "document_embeddings (snd (add_documents encode self chunks)) = document_embeddings self"
    by (auto simp: add_documents_def Let_def split: if_splits sum.splits)
next
  assume "encode chunks = Inr embeddings \<and> encode (map fst (db @ zip chunks embeddings)) = Inr all_embeddings"
  then show "upload_ingest encode db self chunks =
        (Inr (), db @ zip chunks embeddings,
         self\<lparr>documents := map fst (db @ zip chunks embeddings),
              document_embeddings := Some all_embeddings\<rparr>)"
    by (simp add: upload_ingest_def Let_def)
qed

theorem add_documents_outcomes_witness:
  "add_documents (encode_fixed [[1]]) init_retriever [''first chunk'', '' second chunk ''] =
     (Inr (), init_retriever\<lparr>documents := [''first chunk'', ''second chunk''],
                            document_embeddings := Some [[1]]\<rparr>)"
  using add_documents_outcomes [where chunks = "[''first chunk'', '' second chunk '']"
      and encode = "encode_fixed [[1]]" and self = init_retriever
      and cleaned = "[''first chunk'', ''second chunk'']" and E = "[[1]]"]
  by (simp add: strip_def is_space_def encode_fixed_def)

text \<open>
  Claim C5 (empty corpus). \<^verbatim>\<open>retrieve\<close> returns the empty list, whatever the query and \<open>top_k\<close>,
  when the retriever has no documents: right after its creation, and after an ingest whose chunks
  were all removed by the cleaning. The method has no exceptional outcome, since its body catches
  every exception.
\<close>

theorem retrieve_empty_store:
  "(documents self = [] \<or> document_embeddings self = None \<longrightarrow>
      retrieve np_argsort encode_query hybrid_retrieve self query top_k semantic_weight bm25_weight = []) \<and>
   retrieve np_argsort encode_query hybrid_retrieve init_retriever query top_k semantic_weight bm25_weight = [] \<and>
   (chunks \<noteq> [] \<and> list_all (\<lambda>chunk. strip chunk = []) chunks \<longrightarrow>
      fst (add_documents encode self chunks) = Inr () \<and>
      documents (snd (add_documents encode self chunks)) = [] \<and>
      retrieve np_argsort encode_query hybrid_retrieve (snd (add_documents encode self chunks))
        query top_k semantic_weight bm25_weight = [])"
proof (intro conjI impI)
  assume "documents self = [] \<or> document_embeddings self = None"
  then show "retrieve np_argsort encode_query hybrid_retrieve self query top_k semantic_weight bm25_weight = []"
    by (auto simp: retrieve_def)
next
  show "retrieve np_argsort encode_query hybrid_retrieve init_retriever query top_k semantic_weight bm25_weight = []"
    by (simp add: retrieve_def init_retriever_def)
next
  assume a: "chunks \<noteq> [] \<and> list_all (\<lambda>chunk. strip chunk = []) chunks"
  then have f: "filter (\<lambda>chunk. strip chunk \<noteq> []) chunks = []"
    by (simp add: list_all_iff filter_empty_conv)
  with a have r: "add_documents encode self chunks = (Inr (), self\<lparr>documents := []\<rparr>)"
    by (simp add: add_documents_def Let_def)
  from r show "fst (add_documents encode self chunks) = Inr ()" by simp
  from r show "documents (snd (add_documents encode self chunks)) = []" by simp
  from r show "retrieve np_argsort encode_query hybrid_retrieve (snd (add_documents encode self chunks))
        query top_k semantic_weight bm25_weight = []"
    by (simp add: retrieve_def)
qed

theorem retrieve_empty_store_witness:
  "retrieve stable_argsort encode_query_failing hybrid_failing
     (snd (add_documents encode_failing \<lparr>documents = [''old''], document_embeddings = Some [[1]]\<rparr> [''  '', '''']))
     ''what is this'' 5 (7 / 10) (3 / 10) = []"
  using retrieve_empty_store [where chunks = "[''  '', '''']" and encode = encode_failing
      and self = "\<lparr>documents = [''old''], document_embeddings = Some [[1]]\<rparr>"
      and np_argsort = stable_argsort and encode_query = encode_query_failing and hybrid_retrieve = hybrid_failing
      and query = "''what is this''" and top_k = 5 and semantic_weight = "7 / 10" and bm25_weight = "3 / 10"]
  by (simp add: strip_def is_space_def)

text \<open>
  Claim C6 (cosine scores and top K). For a matrix \<open>E\<close> whose rows have the dimension of the query
  \<open>q\<close>, the score of chunk \<open>i\<close> is \<open>dot (E ! i) q / (norm (E ! i) * norm q + 1e-9)\<close>. For
  \<open>k \<ge> 1\<close>, and whatever order \<^verbatim>\<open>np.argsort\<close> leaves equal scores in, the scorer returns the
  documents and the scores of \<open>min k N\<close> distinct indices, in descending order of score, and no
  chunk left out has a higher score than a chunk returned.
\<close>

theorem cosine_top_k:
  "list_all (\<lambda>row. length row = length q) E \<and> length E \<le> length docs \<and> 1 \<le> k \<and>
   (\<forall>scores. cosine_scores E q = Inr scores \<longrightarrow> is_argsort scores (np_argsort scores)) \<longrightarrow>
     (\<exists>scores top.
        cosine_scores E q = Inr scores \<and> length scores = length E \<and>
        (\<forall>i<length E. scores ! i = dot (E ! i) q / (norm_vec (E ! i) * norm_vec q + 1 / 1000000000)) \<and>
        top = top_indices np_argsort scores k \<and>
        simple_retrieve np_argsort docs E q k = (map (\<lambda>i. docs ! i) top, map (\<lambda>i. scores ! i) top) \<and>
        length top = min (nat k) (length E) \<and>
        distinct top \<and>
        set top \<subseteq> {0..<length E} \<and>
        sorted (rev (map (\<lambda>i. scores ! i) top)) \<and>
        (\<forall>i<length E. i \<notin> set top \<longrightarrow> (\<forall>j\<in>set top. scores ! i \<le> scores ! j)))"
proof
  assume a: "list_all (\<lambda>row. length row = length q) E \<and> length E \<le> length docs \<and> 1 \<le> k \<and>
   (\<forall>scores. cosine_scores E q = Inr scores \<longrightarrow> is_argsort scores (np_argsort scores))"
  define scores where "scores = map (\<lambda>row. dot row q / (norm_vec row * norm_vec q + eps)) E"
  from a have cs: "cosine_scores E q = Inr scores"
    unfolding scores_def by (simp add: cosine_scores_ok)
  with a have srt: "is_argsort scores (np_argsort scores)" by blast
  have len: "length scores = length E" by (simp add: scores_def)
  have formula: "\<forall>i<length E. scores ! i = dot (E ! i) q / (norm_vec (E ! i) * norm_vec q + 1 / 1000000000)"
    by (simp add: scores_def eps_def)
  from a cs srt have ret: "simple_retrieve np_argsort docs E q k =
      (map (\<lambda>i. docs ! i) (top_indices np_argsort scores k),
       map (\<lambda>i. scores ! i) (top_indices np_argsort scores k))"
    by (simp add: simple_retrieve_ok)
  from a srt have tl: "length (top_indices np_argsort scores k) = min (nat k) (length E)"
    by (simp add: top_indices_length len)
  have ts: "set (top_indices np_argsort scores k) \<subseteq> {0..<length E}"
    using srt top_indices_set [where scores = scores and np_argsort = np_argsort and k = k] by (simp add: len)
  have best: "\<forall>i<length E. i \<notin> set (top_indices np_argsort scores k) \<longrightarrow>
                (\<forall>j\<in>set (top_indices np_argsort scores k). scores ! i \<le> scores ! j)"
    using srt top_indices_best [where scores = scores and np_argsort = np_argsort and k = k] by (simp add: len)
  have dst: "distinct (top_indices np_argsort scores k)"
    using srt by (rule top_indices_distinct)
  have desc: "sorted (rev (map (\<lambda>i. scores ! i) (top_indices np_argsort scores k)))"
    using srt by (rule top_indices_descending)
  from cs len formula ret tl ts best dst desc
  show "\<exists>scores top.
        cosine_scores E q = Inr scores \<and> length scores = length E \<and>
        (\<forall>i<length E. scores ! i = dot (E ! i) q / (norm_vec (E ! i) * norm_vec q + 1 / 1000000000)) \<and>
        top = top_indices np_argsort scores k \<and>
        simple_retrieve np_argsort docs E q k = (map (\<lambda>i. docs ! i) top, map (\<lambda>i. scores ! i) top) \<and>
        length top = min (nat k) (length E) \<and>
        distinct top \<and>
        set top \<subseteq> {0..<length E} \<and>
        sorted (rev (map (\<lambda>i. scores ! i) top)) \<and>
        (\<forall>i<length E. i \<notin> set top \<longrightarrow> (\<forall>j\<in>set top. scores ! i \<le> scores ! j))"
    by blast
qed

theorem cosine_top_k_witness:
  "\<exists>scores. cosine_scores [[1, 0], [0, 1], [1, 0]] [1, 0] = Inr scores \<and>
            scores ! 1 = dot [0, 1] [1, 0] / (norm_vec [0, 1] * norm_vec [1, 0] + 1 / 1000000000) \<and>
            length (top_indices stable_argsort scores 2) = 2 \<and>
            simple_retrieve stable_argsort [''a'', ''b'', ''c''] [[1, 0], [0, 1], [1, 0]] [1, 0] 2 =
              (map (\<lambda>i. [''a'', ''b'', ''c''] ! i) (top_indices stable_argsort scores 2),
               map (\<lambda>i. scores ! i) (top_indices stable_argsort scores 2))"
proof -
  from cosine_top_k [where E = "[[1, 0], [0, 1], [1, 0]]" and q = "[1, 0]"
      and docs = "[''a'', ''b'', ''c'']" and k = 2 and np_argsort = stable_argsort]
    stable_argsort_is_argsort
  obtain scores where "cosine_scores [[1, 0], [0, 1], [1, 0]] [1, 0] = Inr scores"
    and "\<forall>i<length [[1, 0], [0, 1], [1, 0 :: real]]. scores ! i =
           dot ([[1, 0], [0, 1], [1, 0]] ! i) [1, 0] /
             (norm_vec ([[1, 0], [0, 1], [1, 0]] ! i) * norm_vec [1, 0] + 1 / 1000000000)"
    and "simple_retrieve stable_argsort [''a'', ''b'', ''c''] [[1, 0], [0, 1], [1, 0]] [1, 0] 2 =
              (map (\<lambda>i. [''a'', ''b'', ''c''] ! i) (top_indices stable_argsort scores 2),
               map (\<lambda>i. scores ! i) (top_indices stable_argsort scores 2))"
    and "length (top_indices stable_argsort scores 2) = min (nat 2) (length [[1, 0], [0, 1], [1, 0 :: real]])"
    by auto
  then show ?thesis by (intro exI [of _ scores]) simp
qed

end
